theory Spec2Isabelle
  imports Main "HOL-Library.Char_ord"
begin

section \<open>Strings\<close>

text \<open>
  Go strings are byte sequences; \<^typ>\<open>string\<close> is a list of 8-bit characters, so
  \<open>length\<close> is Go's \<open>len\<close> and \<open>text ! i\<close> is Go's \<open>text[i]\<close>.
\<close>

text \<open>\<open>isLetter\<close> (consent file): a byte is a letter when it is in a-z or A-Z.\<close>

definition isLetter :: "char \<Rightarrow> bool" where
  "isLetter b = ((b \<ge> CHR ''a'' \<and> b \<le> CHR ''z'') \<or> (b \<ge> CHR ''A'' \<and> b \<le> CHR ''Z''))"

text \<open>
  The loop of \<open>containsWholeWord\<close>, started at index \<open>i\<close>. Go's loop condition
  \<open>i <= textLen-wordLen\<close> is on signed integers; on naturals it is written
  \<open>i + wordLen \<le> textLen\<close>. \<open>take wordLen (drop i text)\<close> is the slice
  \<open>text[i:i+wordLen]\<close>.
\<close>

function containsWholeWord_loop :: "string \<Rightarrow> string \<Rightarrow> nat \<Rightarrow> bool" where
  "containsWholeWord_loop text word i =
     (let wordLen = length word; textLen = length text in
      if i + wordLen \<le> textLen then
        (if take wordLen (drop i text) \<noteq> word then containsWholeWord_loop text word (Suc i)
         else
           (let leftOk = (i = 0 \<or> \<not> isLetter (text ! (i - 1)));
                rightOk = (i + wordLen = textLen \<or> \<not> isLetter (text ! (i + wordLen)))
            in if leftOk \<and> rightOk then True
               else containsWholeWord_loop text word (Suc i)))
      else False)"
  by pat_completeness auto
termination
  by (relation "measure (\<lambda>(text, word, i). Suc (length text) - (i + length word))") auto

declare containsWholeWord_loop.simps [simp del]

definition containsWholeWord :: "string \<Rightarrow> string \<Rightarrow> bool" where
  "containsWholeWord text word =
     (if text = word then True else containsWholeWord_loop text word 0)"

text \<open>\<open>strings.Contains\<close>: the second string occurs somewhere in the first.\<close>

definition Contains :: "string \<Rightarrow> string \<Rightarrow> bool" where
  "Contains s substr =
     list_ex (\<lambda>i. take (length substr) (drop i s) = substr) [0 ..< Suc (length s)]"

text \<open>\<open>strings.Join\<close>.\<close>

fun Join :: "string list \<Rightarrow> string \<Rightarrow> string" where
  "Join [] sep = []"
| "Join [x] sep = x"
| "Join (x # y # ys) sep = x @ sep @ Join (y # ys) sep"

text \<open>
  \<open>strings.ToLower\<close> of the Go standard library: a string of ASCII bytes only has
  each byte of A-Z moved to a-z; any other string is mapped rune by rune through the
  Unicode tables, which are not part of this repository and are taken as the
  parameter \<open>unicodeLower\<close>.
\<close>

definition isASCII :: "string \<Rightarrow> bool" where
  "isASCII s = list_all (\<lambda>c. of_char c < (128::nat)) s"

definition lowerByte :: "char \<Rightarrow> char" where
  "lowerByte c = (if CHR ''A'' \<le> c \<and> c \<le> CHR ''Z'' then char_of (of_char c + (32::nat)) else c)"

definition ToLower :: "(string \<Rightarrow> string) \<Rightarrow> string \<Rightarrow> string" where
  "ToLower unicodeLower s = (if isASCII s then map lowerByte s else unicodeLower s)"

definition HasPrefix :: "string \<Rightarrow> string \<Rightarrow> bool" where
  "HasPrefix s p = (length p \<le> length s \<and> take (length p) s = p)"

section \<open>GDPR consent: the affirmative-response detector\<close>

definition affirmativeResponses :: "string list" where
  "affirmativeResponses =
     [''yes'', ''agree'', ''i agree'', ''consent'', ''i consent'', ''ok'', ''okay'',
      ''ja'', ''oui'', ''si'']"

text \<open>
  The first half of \<open>checkAndRecordConsent\<close>, up to the test of the local variable
  \<open>consent\<close>: the argument is \<open>plainTextContent\<close>, the result of
  \<open>stripHTMLTags(status.Content)\<close> (the HTML parser is an external library).
\<close>

definition consentDetected :: "(string \<Rightarrow> string) \<Rightarrow> string \<Rightarrow> bool" where
  "consentDetected unicodeLower plainTextContent =
     (if plainTextContent = [] then False
      else
        (let responseText = ToLower unicodeLower plainTextContent
         in list_ex (\<lambda>response. containsWholeWord responseText response)
              affirmativeResponses))"

text \<open>
  The claim's wording of a whole-word occurrence: the word stands at position \<open>i\<close>
  of the text, and the characters next to it, where there are any, are not ASCII
  letters.
\<close>

definition asciiLetter :: "char \<Rightarrow> bool" where
  "asciiLetter c = (c \<in> set ''abcdefghijklmnopqrstuvwxyzABCDEFGHIJKLMNOPQRSTUVWXYZ'')"

definition wholeWordAt :: "string \<Rightarrow> string \<Rightarrow> nat \<Rightarrow> bool" where
  "wholeWordAt text word i =
     (i + length word \<le> length text \<and> take (length word) (drop i text) = word \<and>
      (0 < i \<longrightarrow> \<not> asciiLetter (text ! (i - 1))) \<and>
      (i + length word < length text \<longrightarrow> \<not> asciiLetter (text ! (i + length word))))"

definition spec_containsWholeWord :: "string \<Rightarrow> string \<Rightarrow> bool" where
  "spec_containsWholeWord text word = (\<exists>i \<le> length text. wholeWordAt text word i)"

section \<open>Platform data\<close>

text \<open>
  The parts of the go-mastodon types the bot reads. Identifiers are strings; a time is
  an instant on an integer scale (only instants handed out by the platform or the clock
  are ever compared).
\<close>

type_synonym ID = string
type_synonym time = int

record Account =
  AccountID :: ID
  Acct :: string
  Bot :: bool
  Note :: string
  CreatedAt :: time

record Attachment =
  Type :: string
  Description :: string
  URL :: string

text \<open>\<open>InReplyToID\<close> is an \<open>interface{}\<close>: nil, a string, an ID, or anything else.\<close>

datatype ReplyRef = RefNil | RefString string | RefID ID | RefOther

record Status =
  StatusID :: ID
  StatusAccount :: Account
  InReplyToID :: ReplyRef
  MediaAttachments :: "Attachment list"
  Visibility :: string
  SpoilerText :: string
  Language :: string
  Content :: string

record Notification =
  NotificationAccount :: Account
  NotificationStatus :: Status

record Toot =
  TootStatus :: string
  TootInReplyToID :: ID
  TootVisibility :: string
  TootLanguage :: string
  TootSpoilerText :: string

text \<open>The fields of \<open>config.toml\<close> that the modelled functions read.\<close>

record Config =
  Username :: string
  Provider :: string
  DNITags :: "string list"
  IgnoreBots :: bool
  ReplyVisibility :: string
  AskForConsent :: bool
  PowerMetricsEnabled :: bool
  RateLimitEnabled :: bool
  MaxRequestsPerMinute :: int
  MaxRequestsPerHour :: int
  NewAccountMaxRequestsPerMinute :: int
  NewAccountMaxRequestsPerHour :: int
  NewAccountPeriodDays :: int
  ShadowBanThreshold :: int
  AdminContactHandle :: string
  AltTextRemindersEnabled :: bool
  devMode :: bool

text \<open>
  What lies outside the process while one handler runs: the platform client \<open>c\<close>
  (a failed call is \<open>None\<close>, or \<open>False\<close> for \<open>DeleteStatus\<close>), the media download
  and the model provider behind \<open>generateImageAltText\<close> and its siblings, and the clock.
  \<open>youngerThan t days\<close> is the test
  \<open>time.Since(t).Hours() < 24*float64(days)\<close> of \<open>IsNewAccount\<close>, a comparison of
  floating-point numbers at the time of the call.
\<close>

record World =
  GetAccount :: "ID \<Rightarrow> Account option"
  GetStatus :: "ID \<Rightarrow> Status option"
  PostStatus :: "Toot \<Rightarrow> ID option"
  DeleteStatus :: "ID \<Rightarrow> bool"
  youngerThan :: "time \<Rightarrow> int \<Rightarrow> bool"
  fetchMedia :: "string \<Rightarrow> bool"
  providerAnswer :: "string \<Rightarrow> string \<Rightarrow> string \<Rightarrow> string option"
  elapsedMs :: "string \<Rightarrow> int"
  saveConsentOk :: bool
  now :: time

text \<open>The calls a handler makes to the outside, in the order it makes them.\<close>

datatype Effect =
    PostStatusCall Toot
  | DeleteStatusCall ID
  | ProviderCall string string string

section \<open>Rate limiter\<close>

record RateLimiter =
  MinuteCounts :: "string \<rightharpoonup> int"
  HourCounts :: "string \<rightharpoonup> int"
  AccountAges :: "string \<rightharpoonup> time"
  ExceededCounts :: "string \<rightharpoonup> int"
  ShadowBanned :: "string \<rightharpoonup> bool"
  Whitelist :: "string \<rightharpoonup> bool"

text \<open>Reading a Go map at a missing key gives the zero value.\<close>

definition count :: "(string \<rightharpoonup> int) \<Rightarrow> string \<Rightarrow> int" where
  "count m k = (case m k of None \<Rightarrow> 0 | Some n \<Rightarrow> n)"

definition flag :: "(string \<rightharpoonup> bool) \<Rightarrow> string \<Rightarrow> bool" where
  "flag m k = (case m k of None \<Rightarrow> False | Some b \<Rightarrow> b)"

definition NewRateLimiter :: RateLimiter where
  "NewRateLimiter =
     \<lparr>MinuteCounts = Map.empty, HourCounts = Map.empty, AccountAges = Map.empty,
      ExceededCounts = Map.empty, ShadowBanned = Map.empty, Whitelist = Map.empty\<rparr>"

definition IsNewAccount :: "Config \<Rightarrow> World \<Rightarrow> RateLimiter \<Rightarrow> string \<Rightarrow> bool \<times> RateLimiter" where
  "IsNewAccount cfg c rl userID =
     (case AccountAges rl userID of
        Some creationDate \<Rightarrow> (youngerThan c creationDate (NewAccountPeriodDays cfg), rl)
      | None \<Rightarrow>
          (case GetAccount c userID of
             None \<Rightarrow> (False, rl)
           | Some account \<Rightarrow>
               (youngerThan c (CreatedAt account) (NewAccountPeriodDays cfg),
                rl\<lparr>AccountAges := (AccountAges rl)(userID \<mapsto> CreatedAt account)\<rparr>)))"

definition IsShadowBanned :: "RateLimiter \<Rightarrow> string \<Rightarrow> bool" where
  "IsShadowBanned rl userID = flag (ShadowBanned rl) userID"

definition notifyAdmin :: "Config \<Rightarrow> World \<Rightarrow> string \<Rightarrow> Effect list" where
  "notifyAdmin cfg c userID =
     (case GetAccount c userID of
        None \<Rightarrow> []
      | Some account \<Rightarrow>
          [PostStatusCall
             \<lparr>TootStatus = AdminContactHandle cfg @ '' User '' @ Acct account @
                  '' has been shadow banned for exceeding rate limits.'' @ [CHR 0x0A] @
                  ''To unban, reply with 'unban '' @ userID @ '''.'',
              TootInReplyToID = '''', TootVisibility = ''direct'', TootLanguage = '''',
              TootSpoilerText = ''''\<rparr>])"

definition ShadowBanUser :: "Config \<Rightarrow> World \<Rightarrow> RateLimiter \<Rightarrow> string \<Rightarrow> RateLimiter \<times> Effect list" where
  "ShadowBanUser cfg c rl userID =
     (if flag (Whitelist rl) userID then (rl, [])
      else (rl\<lparr>ShadowBanned := (ShadowBanned rl)(userID \<mapsto> True)\<rparr>, notifyAdmin cfg c userID))"

text \<open>
  The two branches of \<open>Increment\<close> that find a limit reached run the same three
  statements; \<open>limitExceeded\<close> is that block.
\<close>

definition limitExceeded :: "Config \<Rightarrow> World \<Rightarrow> RateLimiter \<Rightarrow> string \<Rightarrow> bool \<times> RateLimiter \<times> Effect list" where
  "limitExceeded cfg c rl userID =
     (let rl' = rl\<lparr>ExceededCounts :=
                  (ExceededCounts rl)(userID \<mapsto> count (ExceededCounts rl) userID + 1)\<rparr>
      in if count (ExceededCounts rl') userID \<ge> ShadowBanThreshold cfg
         then (let (rl'', es) = ShadowBanUser cfg c rl' userID in (False, rl'', es))
         else (False, rl', []))"

definition Increment :: "Config \<Rightarrow> World \<Rightarrow> RateLimiter \<Rightarrow> string \<Rightarrow> bool \<times> RateLimiter \<times> Effect list" where
  "Increment cfg c rl userID =
     (if \<not> RateLimitEnabled cfg then (True, rl, [])
      else if IsShadowBanned rl userID then (False, rl, [])
      else
        (let (isNew, rl1) = IsNewAccount cfg c rl userID;
             maxPerMinute = (if isNew then NewAccountMaxRequestsPerMinute cfg
                             else MaxRequestsPerMinute cfg);
             maxPerHour = (if isNew then NewAccountMaxRequestsPerHour cfg
                           else MaxRequestsPerHour cfg)
         in if count (MinuteCounts rl1) userID \<ge> maxPerMinute then limitExceeded cfg c rl1 userID
            else if count (HourCounts rl1) userID \<ge> maxPerHour then limitExceeded cfg c rl1 userID
            else
              (True,
               rl1\<lparr>MinuteCounts := (MinuteCounts rl1)(userID \<mapsto> count (MinuteCounts rl1) userID + 1),
                    HourCounts := (HourCounts rl1)(userID \<mapsto> count (HourCounts rl1) userID + 1)\<rparr>,
               [])))"

definition UnbanAndWhitelistUser :: "RateLimiter \<Rightarrow> string \<Rightarrow> RateLimiter" where
  "UnbanAndWhitelistUser rl userID =
     rl\<lparr>ShadowBanned := (ShadowBanned rl)(userID := None),
        Whitelist := (Whitelist rl)(userID \<mapsto> True)\<rparr>"

definition ResetMinuteCounts :: "RateLimiter \<Rightarrow> RateLimiter" where
  "ResetMinuteCounts rl = rl\<lparr>MinuteCounts := (\<lambda>userID. map_option (\<lambda>_. 0) (MinuteCounts rl userID))\<rparr>"

definition ResetHourCounts :: "RateLimiter \<Rightarrow> RateLimiter" where
  "ResetHourCounts rl =
     rl\<lparr>HourCounts := (\<lambda>userID. map_option (\<lambda>_. 0) (HourCounts rl userID)),
        ExceededCounts := (\<lambda>userID. map_option (\<lambda>_. 0) (ExceededCounts rl userID))\<rparr>"

text \<open>
  The operations on the rate limiter and their runs from the state \<open>NewRateLimiter\<close>.
  Each \<open>Increment\<close> meets its own outside world.
\<close>

datatype RateOp =
    OpIncrement World string
  | OpResetMinuteCounts
  | OpResetHourCounts
  | OpUnbanAndWhitelistUser string

fun applyOp :: "Config \<Rightarrow> RateLimiter \<Rightarrow> RateOp \<Rightarrow> RateLimiter" where
  "applyOp cfg rl (OpIncrement c userID) = fst (snd (Increment cfg c rl userID))"
| "applyOp cfg rl OpResetMinuteCounts = ResetMinuteCounts rl"
| "applyOp cfg rl OpResetHourCounts = ResetHourCounts rl"
| "applyOp cfg rl (OpUnbanAndWhitelistUser userID) = UnbanAndWhitelistUser rl userID"

definition runOps :: "Config \<Rightarrow> RateOp list \<Rightarrow> RateLimiter" where
  "runOps cfg ops = foldl (applyOp cfg) NewRateLimiter ops"

text \<open>Successive \<open>Increment\<close> calls for one user: the results, the final state, every effect.\<close>

fun Increments :: "Config \<Rightarrow> World \<Rightarrow> RateLimiter \<Rightarrow> string \<Rightarrow> nat \<Rightarrow> bool list \<times> RateLimiter \<times> Effect list" where
  "Increments cfg c rl userID 0 = ([], rl, [])"
| "Increments cfg c rl userID (Suc n) =
     (let (ok, rl1, es1) = Increment cfg c rl userID;
          (oks, rl2, es2) = Increments cfg c rl1 userID n
      in (ok # oks, rl2, es1 @ es2))"

text \<open>
  The invariant behind the shadow-ban rule: a whitelisted user is not banned, and a
  user who is neither banned nor whitelisted has an exceed count of zero or below the
  threshold.
\<close>

definition rateInv :: "Config \<Rightarrow> RateLimiter \<Rightarrow> bool" where
  "rateInv cfg rl =
     (\<forall>u. (flag (Whitelist rl) u \<longrightarrow> \<not> IsShadowBanned rl u) \<and>
          (\<not> IsShadowBanned rl u \<and> \<not> flag (Whitelist rl) u \<longrightarrow>
             count (ExceededCounts rl) u = 0 \<or>
             count (ExceededCounts rl) u < ShadowBanThreshold cfg))"

section \<open>A concrete configuration and outside world\<close>

text \<open>
  The configuration of the rate-limit scenario (three requests per hour, shadow ban at
  the second breach) and a world in which every call to the outside succeeds; the
  concrete evaluations below start from these.
\<close>

definition exampleConfig :: Config where
  "exampleConfig =
     \<lparr>Username = ''altbot'', Provider = ''gemini'', DNITags = [''#nobot''], IgnoreBots = True,
      ReplyVisibility = ''public'', AskForConsent = False, PowerMetricsEnabled = False,
      RateLimitEnabled = True, MaxRequestsPerMinute = 10, MaxRequestsPerHour = 3,
      NewAccountMaxRequestsPerMinute = 1, NewAccountMaxRequestsPerHour = 1,
      NewAccountPeriodDays = 7, ShadowBanThreshold = 2, AdminContactHandle = ''@admin'',
      AltTextRemindersEnabled = False, devMode = False\<rparr>"

definition exampleAccount :: "ID \<Rightarrow> Account" where
  "exampleAccount userID =
     \<lparr>AccountID = userID, Acct = userID, Bot = False, Note = '''', CreatedAt = 0\<rparr>"

definition exampleWorld :: World where
  "exampleWorld =
     \<lparr>GetAccount = (\<lambda>userID. Some (exampleAccount userID)),
      GetStatus = (\<lambda>_. None),
      PostStatus = (\<lambda>_. Some ''reply-1''),
      DeleteStatus = (\<lambda>_. True),
      youngerThan = (\<lambda>_ _. False),
      fetchMedia = (\<lambda>_. True),
      providerAnswer = (\<lambda>_ _ _. Some ''A cat on a sofa.''),
      elapsedMs = (\<lambda>_. 10),
      saveConsentOk = True,
      now = 1000\<rparr>"

text \<open>
  The facts about one user that the next \<open>Increment\<close> depends on: both counters at
  \<open>k\<close>, the exceed count at \<open>e\<close>, neither banned nor whitelisted, and the cached
  account age as after the first look-up from \<open>rl0\<close>.
\<close>

definition userAt :: "Config \<Rightarrow> World \<Rightarrow> RateLimiter \<Rightarrow> string \<Rightarrow> RateLimiter \<Rightarrow> int \<Rightarrow> int \<Rightarrow> bool" where
  "userAt cfg c rl0 u rl k e =
     (count (MinuteCounts rl) u = k \<and> count (HourCounts rl) u = k \<and>
      count (ExceededCounts rl) u = e \<and> \<not> IsShadowBanned rl u \<and> \<not> flag (Whitelist rl) u \<and>
      AccountAges (snd (IsNewAccount cfg c rl u)) u = AccountAges (snd (IsNewAccount cfg c rl0 u)) u)"

section \<open>Delete cascade\<close>

record ReplyInfo =
  ReplyID :: ID
  Timestamp :: time

text \<open>
  \<open>handleDeleteEvent\<close> on the table \<open>replyMap\<close>: the new table and the calls made.
\<close>

definition handleDeleteEvent :: "World \<Rightarrow> (ID \<rightharpoonup> ReplyInfo) \<Rightarrow> ID \<Rightarrow> (ID \<rightharpoonup> ReplyInfo) \<times> Effect list" where
  "handleDeleteEvent c replyMap originalID =
     (case replyMap originalID of
        None \<Rightarrow> (replyMap, [])
      | Some replyInfo \<Rightarrow>
          if \<not> DeleteStatus c (ReplyID replyInfo)
          then (replyMap, [DeleteStatusCall (ReplyID replyInfo)])
          else (replyMap(originalID := None), [DeleteStatusCall (ReplyID replyInfo)]))"

section \<open>Reply assembly: visibility and content warning\<close>

text \<open>
  The visibility of the reply in \<open>generateAndPostAltText\<close>: the switch on the
  lowercased string \<open>config.Behavior.ReplyVisibility + "," + replyPost.Visibility\<close>
  (no case matching leaves the post's visibility), then the rule for private posts.
\<close>

definition replyVisibility :: "(string \<Rightarrow> string) \<Rightarrow> string \<Rightarrow> string \<Rightarrow> string" where
  "replyVisibility unicodeLower configVisibility postVisibility =
     (let key = ToLower unicodeLower (configVisibility @ '','' @ postVisibility);
          visibility =
            (if key = ''public,public'' then ''public''
             else if key = ''public,unlisted'' then ''unlisted''
             else if key = ''public,private'' then ''private''
             else if key = ''public,direct'' then ''direct''
             else if key = ''unlisted,public'' then ''unlisted''
             else if key = ''unlisted,unlisted'' then ''unlisted''
             else if key = ''unlisted,private'' then ''private''
             else if key = ''unlisted,direct'' then ''direct''
             else if key = ''private,public'' then ''private''
             else if key = ''private,unlisted'' then ''private''
             else if key = ''private,private'' then ''private''
             else if key = ''private,direct'' then ''direct''
             else if key = ''direct,public'' then ''direct''
             else if key = ''direct,unlisted'' then ''direct''
             else if key = ''direct,private'' then ''direct''
             else if key = ''direct,direct'' then ''direct''
             else postVisibility)
      in if postVisibility = ''private'' then ''direct'' else visibility)"

text \<open>The content warning of the reply, from the source's spoiler text.\<close>

definition contentWarning :: "string \<Rightarrow> string" where
  "contentWarning spoilerText =
     (if spoilerText \<noteq> [] \<and> \<not> HasPrefix spoilerText ''re:''
      then ''re: '' @ spoilerText
      else spoilerText)"

section \<open>Localized strings\<close>

record Localization =
  Prompts :: "string \<rightharpoonup> string"
  Responses :: "string \<rightharpoonup> string"

text \<open>
  The loaded \<open>localizations.json\<close> with the settings \<open>getLocalizedString\<close> reads, and
  the two texts the reply takes from outside the modelled code,
  \<open>getProviderAttribution(config, lang)\<close> and the formatted energy line (a
  floating-point computation on the elapsed milliseconds), and the Unicode tables of
  \<open>strings.ToLower\<close>.
\<close>

record Locale =
  localizations :: "string \<rightharpoonup> Localization"
  DefaultLanguage :: string
  PromptOverrideState :: bool
  PromptAdditionState :: bool
  PromptOverride :: string
  PromptAddition :: string
  providerAttribution :: "string \<Rightarrow> string"
  energyLine :: "string \<Rightarrow> int \<Rightarrow> string"
  unicodeLower :: "string \<Rightarrow> string"

definition getLocalizedString :: "Locale \<Rightarrow> string \<Rightarrow> string \<Rightarrow> string \<Rightarrow> string" where
  "getLocalizedString L lang key category =
     (let localization =
            (case localizations L lang of
               Some v \<Rightarrow> v
             | None \<Rightarrow>
                 (case localizations L (DefaultLanguage L) of
                    Some d \<Rightarrow> d
                  | None \<Rightarrow> \<lparr>Prompts = Map.empty, Responses = Map.empty\<rparr>))
      in if category = ''prompt'' then
           (let prompt0 = (if PromptOverrideState L then PromptOverride L else []);
                prompt1 = (case Prompts localization key of Some v \<Rightarrow> v | None \<Rightarrow> prompt0)
            in if PromptAdditionState L then prompt1 @ '' '' @ PromptAddition L else prompt1)
         else if category = ''response'' then
           (case Responses localization key of Some v \<Rightarrow> v | None \<Rightarrow> [])
         else [])"

section \<open>The bot's tables\<close>

record ConsentRecord =
  ConsentUserID :: string
  ConsentTimestamp :: time
  ConsentMethod :: string

record PendingGDPRRequest =
  PendingUserID :: string
  RequestStatusID :: ID
  PendingTimestamp :: time

record ConsentRequest =
  RequestID :: ID
  RequestTimestamp :: time

record AltTextCheck =
  PostID :: ID
  CheckUserID :: string
  CheckTimestamp :: time

text \<open>
  The package-level variables the handlers read and write. The two capability flags are
  set once in \<open>main\<close> from the configured provider.
\<close>

record Bot =
  Users :: "string \<rightharpoonup> ConsentRecord"
  pendingGDPRRequests :: "string \<rightharpoonup> PendingGDPRRequest"
  consentRequests :: "ID \<rightharpoonup> ConsentRequest"
  rateLimiter :: RateLimiter
  replyMap :: "ID \<rightharpoonup> ReplyInfo"
  altTextChecks :: "ID \<rightharpoonup> AltTextCheck"
  videoProcessingCapability :: bool
  audioProcessingCapability :: bool

text \<open>
  The switch on \<open>config.LLM.Provider\<close> in \<open>main\<close>: the flags (video, audio) it leaves,
  \<open>None\<close> where \<open>main\<close> stops with a fatal error.
\<close>

definition providerCapabilities :: "string \<Rightarrow> (bool \<times> bool) option" where
  "providerCapabilities provider =
     (if provider = ''transformers'' then Some (True, False)
      else if provider = ''ollama'' then Some (False, False)
      else if provider = ''gemini'' then Some (True, True)
      else None)"

definition HasUserConsent :: "Bot \<Rightarrow> string \<Rightarrow> bool" where
  "HasUserConsent b userID = (Users b userID \<noteq> None)"

definition AddPendingGDPRRequest :: "World \<Rightarrow> Bot \<Rightarrow> string \<Rightarrow> ID \<Rightarrow> Bot" where
  "AddPendingGDPRRequest c b userID requestStatusID =
     b\<lparr>pendingGDPRRequests := (pendingGDPRRequests b)(userID \<mapsto>
          \<lparr>PendingUserID = userID, RequestStatusID = requestStatusID, PendingTimestamp = now c\<rparr>)\<rparr>"

text \<open>\<open>RequestGDPRConsent\<close>: the new tables and the calls; the returned id is not used by any caller.\<close>

definition RequestGDPRConsent ::
  "Config \<Rightarrow> Locale \<Rightarrow> World \<Rightarrow> Bot \<Rightarrow> string \<Rightarrow> string \<Rightarrow> string \<Rightarrow> ID \<Rightarrow> bool \<Rightarrow> Bot \<times> Effect list" where
  "RequestGDPRConsent cfg L c b userID username language replyToID isStandaloneMsg =
     (let consentLanguage = ''en'';
          message =
            (if isStandaloneMsg
             then ''@'' @ username @ '' '' @
                  getLocalizedString L consentLanguage ''gdprWelcomeMessage'' ''response'' @
                  [CHR 0x0A, CHR 0x0A] @
                  getLocalizedString L consentLanguage ''gdprConsentRequest'' ''response''
             else ''@'' @ username @ '' '' @
                  getLocalizedString L consentLanguage ''gdprConsentRequest'' ''response'');
          toot = \<lparr>TootStatus = message, TootInReplyToID = replyToID, TootVisibility = ''direct'',
                  TootLanguage = language, TootSpoilerText = ''''\<rparr>
      in if devMode cfg then (b, [])
         else
           (case PostStatus c toot of
              None \<Rightarrow> (b, [PostStatusCall toot])
            | Some statusID \<Rightarrow> (AddPendingGDPRRequest c b userID statusID, [PostStatusCall toot])))"

section \<open>Generation job\<close>

text \<open>
  \<open>generateImageAltText\<close>, \<open>generateVideoAltText\<close> and \<open>generateAudioAltText\<close> have
  one shape: download and prepare the media (any failure is the error result, before
  the provider is reached), then call the model provider. The result is the calls made
  and the text, \<open>None\<close> for an error.
\<close>

definition generateAltText :: "World \<Rightarrow> string \<Rightarrow> string \<Rightarrow> string \<Rightarrow> Effect list \<times> string option" where
  "generateAltText c kind url lang =
     (if \<not> fetchMedia c url then ([], None)
      else ([ProviderCall kind url lang], providerAnswer c kind url lang))"

text \<open>The local variables of \<open>generateAndPostAltText\<close> that its workers share.\<close>

record Job =
  responses :: "string list"
  sucessCount :: int
  altTextGenerated :: bool
  altTextAlreadyExists :: bool
  totalProcessingTimeMs :: int
  jobLimiter :: RateLimiter
  jobEffects :: "Effect list"

text \<open>The job before its first worker, over the rate limiter as the job finds it.\<close>

definition newJob :: "RateLimiter \<Rightarrow> Job" where
  "newJob rl =
     \<lparr>responses = [], sucessCount = 0, altTextGenerated = False,
      altTextAlreadyExists = False, totalProcessingTimeMs = 0,
      jobLimiter = rl, jobEffects = []\<rparr>"

text \<open>
  The body of the goroutine started for one attachment. The goroutines of one job run
  concurrently; the model runs them one after the other, in the order of the
  attachments.
\<close>

definition attachmentWorker ::
  "Config \<Rightarrow> Locale \<Rightarrow> World \<Rightarrow> bool \<Rightarrow> bool \<Rightarrow> Status \<Rightarrow> Job \<Rightarrow> Attachment \<Rightarrow> Job" where
  "attachmentWorker cfg L c videoCap audioCap replyPost job attachment =
     (let (allowed, rl, es) = Increment cfg c (jobLimiter job) (AccountID (StatusAccount replyPost));
          job1 = job\<lparr>jobLimiter := rl, jobEffects := jobEffects job @ es\<rparr>;
          finish = (\<lambda>(calls, answer).
             (let failed = (case answer of None \<Rightarrow> True | Some text \<Rightarrow> text = []);
                  altText =
                    (case answer of
                       None \<Rightarrow> getLocalizedString L (Language replyPost) ''altTextError'' ''response''
                     | Some text \<Rightarrow>
                         if text = []
                         then getLocalizedString L (Language replyPost) ''altTextError'' ''response''
                         else text)
              in job1\<lparr>responses := responses job1 @ [altText],
                      totalProcessingTimeMs := totalProcessingTimeMs job1 + elapsedMs c (URL attachment),
                      sucessCount := (if failed then sucessCount job1 - 1 else sucessCount job1) + 1,
                      jobEffects := jobEffects job1 @ calls\<rparr>))
      in if \<not> allowed then
           job1\<lparr>responses := responses job1 @
                    [getLocalizedString L (Language replyPost) ''altTextError'' ''response'']\<rparr>
         else if Type attachment = ''image'' \<and> Description attachment = [] then
           finish (generateAltText c ''image'' (URL attachment) (Language replyPost))
         else if (Type attachment = ''video'' \<or> Type attachment = ''gifv'') \<and> videoCap \<and>
                 Description attachment = [] then
           finish (generateAltText c ''video'' (URL attachment) (Language replyPost))
         else if Type attachment = ''audio'' \<and> audioCap \<and> Description attachment = [] then
           finish (generateAltText c ''audio'' (URL attachment) (Language replyPost))
         else if Description attachment \<noteq> [] then
           (if \<not> altTextGenerated job1 \<and> \<not> altTextAlreadyExists job1
            then job1\<lparr>responses := responses job1 @
                         [getLocalizedString L (Language replyPost) ''imageAlreadyHasAltText'' ''response''],
                       altTextAlreadyExists := True\<rparr>
            else job1)
         else if videoCap \<and> audioCap then
           job1\<lparr>responses := responses job1 @
                    [getLocalizedString L (Language replyPost) ''unsupportedFile'' ''response'']\<rparr>
         else finish ([], Some []))"

definition queuePostForAltTextCheck :: "World \<Rightarrow> Bot \<Rightarrow> Status \<Rightarrow> string \<Rightarrow> Bot" where
  "queuePostForAltTextCheck c b post userID =
     b\<lparr>altTextChecks := (altTextChecks b)(StatusID post \<mapsto>
          \<lparr>PostID = StatusID post, CheckUserID = userID, CheckTimestamp = now c\<rparr>)\<rparr>"

text \<open>
  \<open>generateAndPostAltText\<close>: the new tables and the calls made, in order. The
  separator of the elements is a newline, U+2015 in UTF-8, and a newline.
\<close>

definition generateAndPostAltText ::
  "Config \<Rightarrow> Locale \<Rightarrow> World \<Rightarrow> Bot \<Rightarrow> Status \<Rightarrow> ID \<Rightarrow> Bot \<times> Effect list" where
  "generateAndPostAltText cfg L c b status replyToID =
     (case GetStatus c replyToID of
        None \<Rightarrow> (b, [])
      | Some replyPost \<Rightarrow>
          (let isLocalModel = (Provider cfg \<noteq> ''gemini'');
               job0 = newJob (rateLimiter b);
               job = foldl (attachmentWorker cfg L c (videoProcessingCapability b)
                              (audioProcessingCapability b) replyPost)
                       job0 (MediaAttachments status);
               generated = (sucessCount job > 0);
               b1 = b\<lparr>rateLimiter := jobLimiter job\<rparr>;
               combined0 = Join (responses job) [CHR 0x0A, CHR 0xE2, CHR 0x80, CHR 0x95, CHR 0x0A];
               warning = contentWarning (SpoilerText status);
               combined1 = ''@'' @ Acct (StatusAccount replyPost) @ '' '' @ combined0;
               combined2 = (if generated
                            then combined1 @ [CHR 0x0A, CHR 0x0A] @
                                 providerAttribution L (Language replyPost)
                            else combined1);
               combinedResponse =
                 (if PowerMetricsEnabled cfg \<and> isLocalModel \<and> generated
                  then combined2 @ energyLine L (Language replyPost) (totalProcessingTimeMs job)
                  else combined2)
           in if combinedResponse = [] then (b1, jobEffects job)
              else
                (let visibility = replyVisibility (unicodeLower L) (ReplyVisibility cfg)
                                    (Visibility replyPost);
                     toot = \<lparr>TootStatus = combinedResponse, TootInReplyToID = replyToID,
                             TootVisibility = visibility, TootLanguage = Language replyPost,
                             TootSpoilerText = warning\<rparr>;
                     fallback = \<lparr>TootStatus = getLocalizedString L (Language replyPost)
                                                ''replyError'' ''response'',
                                 TootInReplyToID = replyToID, TootVisibility = visibility,
                                 TootLanguage = '''', TootSpoilerText = ''''\<rparr>;
                     reply = PostStatus c toot;
                     posts = (case reply of
                                None \<Rightarrow> [PostStatusCall toot, PostStatusCall fallback]
                              | Some _ \<Rightarrow> [PostStatusCall toot]);
                     b2 = (if AltTextRemindersEnabled cfg \<and> visibility \<noteq> ''direct'' \<and>
                              HasUserConsent b1 (AccountID (StatusAccount replyPost))
                           then queuePostForAltTextCheck c b1 status
                                  (AccountID (StatusAccount replyPost))
                           else b1);
                     b3 = (case reply of
                             None \<Rightarrow> b2
                           | Some replyID \<Rightarrow>
                               b2\<lparr>replyMap := (replyMap b2)(StatusID status \<mapsto>
                                     \<lparr>ReplyID = replyID, Timestamp = now c\<rparr>)\<rparr>)
                 in (b3, jobEffects job @ posts))))"

section \<open>Event handlers\<close>

definition isDNI :: "Config \<Rightarrow> Account \<Rightarrow> bool" where
  "isDNI cfg account =
     (if Acct account = Username cfg then True
      else if Bot account \<and> IgnoreBots cfg then True
      else list_ex (\<lambda>tag. Contains (Note account) tag) (DNITags cfg))"

text \<open>
  The media test of \<open>handleUpdate\<close> and \<open>requestConsent\<close>; in Go \<open>&&\<close> binds tighter
  than \<open>||\<close>, so a video passes without the video capability.
\<close>

definition supportedMedia :: "Bot \<Rightarrow> Attachment \<Rightarrow> bool" where
  "supportedMedia b attachment =
     (Type attachment = ''image'' \<or>
      ((Type attachment = ''video'' \<or>
        (Type attachment = ''gifv'' \<and> videoProcessingCapability b)) \<or>
       (Type attachment = ''audio'' \<and> audioProcessingCapability b)))"

text \<open>\<open>requestConsent\<close>: the legacy request to the author of the post.\<close>

definition requestConsent ::
  "Locale \<Rightarrow> World \<Rightarrow> Bot \<Rightarrow> Status \<Rightarrow> Notification \<Rightarrow> Bot \<times> Effect list" where
  "requestConsent L c b status notification =
     (let hasAltText =
            \<not> list_ex (\<lambda>attachment. Description attachment = [] \<and> supportedMedia b attachment)
                 (MediaAttachments status)
      in if hasAltText then (b, [])
         else if consentRequests b (StatusID status) \<noteq> None then (b, [])
         else
           (let b1 = b\<lparr>consentRequests := (consentRequests b)(StatusID status \<mapsto>
                          \<lparr>RequestID = StatusID (NotificationStatus notification),
                           RequestTimestamp = now c\<rparr>)\<rparr>;
                toot = \<lparr>TootStatus = ''@'' @ Acct (StatusAccount status) @ '' '' @
                                      getLocalizedString L (Language (NotificationStatus notification))
                                        ''consentRequest'' ''response'',
                        TootInReplyToID = StatusID status, TootVisibility = Visibility status,
                        TootLanguage = Language (NotificationStatus notification),
                        TootSpoilerText = ''''\<rparr>
            in (b1, [PostStatusCall toot])))"

definition handleMention ::
  "Config \<Rightarrow> Locale \<Rightarrow> World \<Rightarrow> Bot \<Rightarrow> Notification \<Rightarrow> Bot \<times> Effect list" where
  "handleMention cfg L c b notification =
     (if isDNI cfg (NotificationAccount notification) then (b, [])
      else
        (case InReplyToID (NotificationStatus notification) of
           RefNil \<Rightarrow> (b, [])
         | originalStatus \<Rightarrow>
             (let originalStatusID =
                    (case originalStatus of RefString i \<Rightarrow> i | RefID i \<Rightarrow> i | _ \<Rightarrow> [])
              in case GetStatus c originalStatusID of
                   None \<Rightarrow> (b, [])
                 | Some status \<Rightarrow>
                     if length (MediaAttachments status) = 0 then (b, [])
                     else if AccountID (StatusAccount status) =
                             AccountID (NotificationAccount notification) then
                       (let userID = AccountID (NotificationAccount notification)
                        in if \<not> HasUserConsent b userID then
                             RequestGDPRConsent cfg L c b userID
                               (Acct (NotificationAccount notification))
                               (Language (NotificationStatus notification))
                               (StatusID (NotificationStatus notification)) False
                           else generateAndPostAltText cfg L c b status
                                  (StatusID (NotificationStatus notification)))
                     else if \<not> AskForConsent cfg then
                       generateAndPostAltText cfg L c b status
                         (StatusID (NotificationStatus notification))
                     else requestConsent L c b status notification)))"

text \<open>
  The loop of \<open>handleUpdate\<close> over the attachments: it ends at the first supported
  attachment without a description, with the consent request or the generation job.
\<close>

fun handleUpdate_loop ::
  "Config \<Rightarrow> Locale \<Rightarrow> World \<Rightarrow> Bot \<Rightarrow> Status \<Rightarrow> Attachment list \<Rightarrow> Bot \<times> Effect list" where
  "handleUpdate_loop cfg L c b status [] = (b, [])"
| "handleUpdate_loop cfg L c b status (attachment # rest) =
     (if supportedMedia b attachment then
        (if Description attachment = [] then
           (if \<not> HasUserConsent b (AccountID (StatusAccount status)) then
              RequestGDPRConsent cfg L c b (AccountID (StatusAccount status))
                (Acct (StatusAccount status)) (Language status) (StatusID status) False
            else generateAndPostAltText cfg L c b status (StatusID status))
         else handleUpdate_loop cfg L c b status rest)
      else handleUpdate_loop cfg L c b status rest)"

definition handleUpdate :: "Config \<Rightarrow> Locale \<Rightarrow> World \<Rightarrow> Bot \<Rightarrow> Status \<Rightarrow> Bot \<times> Effect list" where
  "handleUpdate cfg L c b status =
     (if Acct (StatusAccount status) = Username cfg then (b, [])
      else handleUpdate_loop cfg L c b status (MediaAttachments status))"

text \<open>The calls to the model provider among the calls of a handler.\<close>

fun isProviderCall :: "Effect \<Rightarrow> bool" where
  "isProviderCall (ProviderCall kind url lang) = True"
| "isProviderCall _ = False"

definition providerCalls :: "Effect list \<Rightarrow> Effect list" where
  "providerCalls es = filter isProviderCall es"

text \<open>A locale with the English responses the examples need, and an empty bot for Gemini.\<close>

definition exampleLocale :: Locale where
  "exampleLocale =
     \<lparr>localizations =
        [''en'' \<mapsto> \<lparr>Prompts = Map.empty,
                    Responses = [''altTextError'' \<mapsto> ''Sorry, something went wrong.'',
                                 ''unsupportedFile'' \<mapsto> ''This file is unsupported.'',
                                 ''imageAlreadyHasAltText'' \<mapsto> ''Already described.'',
                                 ''gdprConsentRequest'' \<mapsto> ''Do you consent?'']\<rparr>],
      DefaultLanguage = ''en'', PromptOverrideState = False, PromptAdditionState = False,
      PromptOverride = '''', PromptAddition = '''',
      providerAttribution = (\<lambda>_. ''Generated by a model.''),
      energyLine = (\<lambda>_ _. ''''),
      unicodeLower = (\<lambda>s. s)\<rparr>"

definition exampleBot :: Bot where
  "exampleBot =
     \<lparr>Users = Map.empty, pendingGDPRRequests = Map.empty, consentRequests = Map.empty,
      rateLimiter = NewRateLimiter, replyMap = Map.empty, altTextChecks = Map.empty,
      videoProcessingCapability = True, audioProcessingCapability = True\<rparr>"

definition examplePost :: "ID \<Rightarrow> ID \<Rightarrow> ReplyRef \<Rightarrow> Attachment list \<Rightarrow> Status" where
  "examplePost statusID author reply attachments =
     \<lparr>StatusID = statusID, StatusAccount = exampleAccount author, InReplyToID = reply,
      MediaAttachments = attachments, Visibility = ''public'', SpoilerText = '''',
      Language = ''en'', Content = ''''\<rparr>"

definition exampleImage :: Attachment where
  "exampleImage = \<lparr>Type = ''image'', Description = '''', URL = ''https://example.social/cat.png''\<rparr>"

text \<open>
  User u has posted p1 with one image that has no description; user v mentions the bot
  in m1, a reply to p1.
\<close>

definition exampleThread :: "ID \<rightharpoonup> Status" where
  "exampleThread =
     [''p1'' \<mapsto> examplePost ''p1'' ''u'' RefNil [exampleImage],
      ''m1'' \<mapsto> examplePost ''m1'' ''v'' (RefID ''p1'') []]"

section \<open>The wording of the claims\<close>

text \<open>
  An attachment the job cannot describe: no description yet, and a type that is neither
  image, nor video (or gifv) with the video capability, nor audio with the audio
  capability.
\<close>

definition unsupportedAttachment :: "bool \<Rightarrow> bool \<Rightarrow> Attachment \<Rightarrow> bool" where
  "unsupportedAttachment videoCap audioCap attachment =
     (Description attachment = [] \<and> Type attachment \<noteq> ''image'' \<and>
      \<not> ((Type attachment = ''video'' \<or> Type attachment = ''gifv'') \<and> videoCap) \<and>
      \<not> (Type attachment = ''audio'' \<and> audioCap))"

text \<open>The source post of a mention: the post the mention replies to, as the platform returns it.\<close>

definition mentionSource :: "World \<Rightarrow> Notification \<Rightarrow> Status option" where
  "mentionSource c notification =
     (case InReplyToID (NotificationStatus notification) of
        RefNil \<Rightarrow> None
      | RefString i \<Rightarrow> GetStatus c i
      | RefID i \<Rightarrow> GetStatus c i
      | RefOther \<Rightarrow> GetStatus c [])"

section \<open>The affirmative-response detector is a whole-word match\<close>

lemma lower_range: "map char_of [97..<123::nat] = ''abcdefghijklmnopqrstuvwxyz''"
  by code_simp

lemma upper_range: "map char_of [65..<91::nat] = ''ABCDEFGHIJKLMNOPQRSTUVWXYZ''"
  by code_simp

lemma char_in_range:
  assumes "a \<le> (of_char c :: nat)" "of_char c < (b::nat)"
  shows "c \<in> set (map char_of [a..<b])"
proof -
  have "(of_char c :: nat) \<in> set [a..<b]" using assms by simp
  then have "char_of (of_char c :: nat) \<in> char_of ` set [a..<b]" by (rule imageI)
  then show ?thesis by simp
qed

lemma isLetter_asciiLetter: "isLetter c = asciiLetter c"
proof
  assume "isLetter c"
  then consider "97 \<le> (of_char c::nat) \<and> (of_char c::nat) < 123"
    | "65 \<le> (of_char c::nat) \<and> (of_char c::nat) < 91"
    by (auto simp: isLetter_def less_eq_char_def)
  then show "asciiLetter c"
  proof cases
    case 1
    then have "c \<in> set (map char_of [97..<123::nat])" by (intro char_in_range) auto
    then have "c \<in> set ''abcdefghijklmnopqrstuvwxyz''" by (simp only: lower_range)
    then show ?thesis unfolding asciiLetter_def by auto
  next
    case 2
    then have "c \<in> set (map char_of [65..<91::nat])" by (intro char_in_range) auto
    then have "c \<in> set ''ABCDEFGHIJKLMNOPQRSTUVWXYZ''" by (simp only: upper_range)
    then show ?thesis unfolding asciiLetter_def by auto
  qed
next
  assume "asciiLetter c"
  then show "isLetter c"
    unfolding asciiLetter_def isLetter_def by (auto simp: less_eq_char_def)
qed

lemma containsWholeWord_loop_iff:
  "containsWholeWord_loop text word i =
     (\<exists>j. i \<le> j \<and> j \<le> length text \<and> wholeWordAt text word j)"
proof (induction "text" word i rule: containsWholeWord_loop.induct)
  case (1 tx word i)
  show ?case
  proof (cases "i + length word \<le> length tx")
    case False
    then have "\<not> containsWholeWord_loop tx word i"
      by (subst containsWholeWord_loop.simps) (simp add: Let_def)
    moreover have "\<not> (\<exists>j. i \<le> j \<and> j \<le> length tx \<and> wholeWordAt tx word j)"
      using False by (auto simp: wholeWordAt_def)
    ultimately show ?thesis by simp
  next
    case inb: True
    have step: "(\<exists>j. i \<le> j \<and> j \<le> length tx \<and> wholeWordAt tx word j) =
                (wholeWordAt tx word i \<or>
                 (\<exists>j. Suc i \<le> j \<and> j \<le> length tx \<and> wholeWordAt tx word j))"
    proof (intro iffI)
      assume "\<exists>j. i \<le> j \<and> j \<le> length tx \<and> wholeWordAt tx word j"
      then obtain j where j: "i \<le> j" "j \<le> length tx" "wholeWordAt tx word j" by blast
      show "wholeWordAt tx word i \<or>
            (\<exists>j. Suc i \<le> j \<and> j \<le> length tx \<and> wholeWordAt tx word j)"
      proof (cases "j = i")
        case True
        with j show ?thesis by simp
      next
        case False
        with j have "Suc i \<le> j" by simp
        with j show ?thesis by blast
      qed
    next
      assume "wholeWordAt tx word i \<or>
              (\<exists>j. Suc i \<le> j \<and> j \<le> length tx \<and> wholeWordAt tx word j)"
      then show "\<exists>j. i \<le> j \<and> j \<le> length tx \<and> wholeWordAt tx word j"
      proof
        assume "wholeWordAt tx word i"
        with inb have "i \<le> i \<and> i \<le> length tx \<and> wholeWordAt tx word i" by simp
        then show ?thesis by blast
      next
        assume "\<exists>j. Suc i \<le> j \<and> j \<le> length tx \<and> wholeWordAt tx word j"
        then obtain j where "Suc i \<le> j" "j \<le> length tx" "wholeWordAt tx word j" by blast
        then have "i \<le> j \<and> j \<le> length tx \<and> wholeWordAt tx word j" by simp
        then show ?thesis by blast
      qed
    qed
    show ?thesis
    proof (cases "take (length word) (drop i tx) \<noteq> word")
      case True
      then have "containsWholeWord_loop tx word i = containsWholeWord_loop tx word (Suc i)"
        using inb by (subst containsWholeWord_loop.simps) (simp add: Let_def)
      moreover have "\<not> wholeWordAt tx word i" using True by (simp add: wholeWordAt_def)
      ultimately show ?thesis using "1.IH"(1)[OF refl refl inb True] step by blast
    next
      case False
      let ?ok = "(i = 0 \<or> \<not> isLetter (tx ! (i - 1))) \<and>
                 (i + length word = length tx \<or> \<not> isLetter (tx ! (i + length word)))"
      have unf: "containsWholeWord_loop tx word i =
                   (?ok \<or> containsWholeWord_loop tx word (Suc i))"
        using inb False by (subst containsWholeWord_loop.simps) (auto simp: Let_def)
      have at: "wholeWordAt tx word i = ?ok"
        using inb False by (auto simp: wholeWordAt_def isLetter_asciiLetter)
      show ?thesis
      proof (cases ?ok)
        case True
        then have "containsWholeWord_loop tx word i"
          using unf by blast
        then show ?thesis using at True step by blast
      next
        case nok: False
        then have "containsWholeWord_loop tx word i = containsWholeWord_loop tx word (Suc i)"
          using unf by blast
        moreover have "containsWholeWord_loop tx word (Suc i) =
            (\<exists>j. Suc i \<le> j \<and> j \<le> length tx \<and> wholeWordAt tx word j)"
          using "1.IH"(2)[OF refl refl inb _ refl refl] False nok by blast
        ultimately show ?thesis using at nok step by blast
      qed
    qed
  qed
qed

lemma containsWholeWord_refines: "containsWholeWord text word = spec_containsWholeWord text word"
proof (cases "text = word")
  case True
  then have "wholeWordAt text word 0" by (simp add: wholeWordAt_def)
  then show ?thesis using True by (auto simp: containsWholeWord_def spec_containsWholeWord_def)
next
  case False
  then show ?thesis
    by (simp add: containsWholeWord_def spec_containsWholeWord_def containsWholeWord_loop_iff)
qed

lemma ToLower_Nil: "ToLower ul [] = []"
  by (simp add: ToLower_def isASCII_def)

lemma no_affirmative_in_Nil: "w \<in> set affirmativeResponses \<Longrightarrow> \<not> spec_containsWholeWord [] w"
  by (auto simp: affirmativeResponses_def spec_containsWholeWord_def wholeWordAt_def)

text \<open>
  C5. The detector accepts a message exactly when the lowercased plain text of its body
  contains one of the tokens yes, agree, i agree, consent, i consent, ok, okay, ja, oui,
  si as a whole word (no ASCII letter next to the occurrence). Bodies \<open>yesterday\<close> and
  \<open>eyes\<close> are rejected; \<open>Yes!\<close>, \<open>yes.\<close> and \<open>I agree.\<close> are accepted.
\<close>

theorem C5_affirmative_is_whole_word_match:
  "(consentDetected ul plain =
      (\<exists>w \<in> set [''yes'', ''agree'', ''i agree'', ''consent'', ''i consent'', ''ok'', ''okay'',
                     ''ja'', ''oui'', ''si''].
         spec_containsWholeWord (ToLower ul plain) w)) \<and>
   \<not> consentDetected ul ''yesterday'' \<and>
   \<not> consentDetected ul ''eyes'' \<and>
   consentDetected ul ''Yes!'' \<and>
   consentDetected ul ''yes.'' \<and>
   consentDetected ul ''I agree.''"
proof -
  have eq: "consentDetected ul plain =
      (\<exists>w \<in> set affirmativeResponses. spec_containsWholeWord (ToLower ul plain) w)"
  proof (cases "plain = []")
    case True
    then show ?thesis
      using no_affirmative_in_Nil by (auto simp: consentDetected_def ToLower_Nil)
  next
    case False
    then show ?thesis
      by (simp add: consentDetected_def Let_def list_ex_iff containsWholeWord_refines)
  qed
  have e1: "\<not> consentDetected ul ''yesterday''" by code_simp
  have e2: "\<not> consentDetected ul ''eyes''" by code_simp
  have e3: "consentDetected ul ''Yes!''" by code_simp
  have e4: "consentDetected ul ''yes.''" by code_simp
  have e5: "consentDetected ul ''I agree.''" by code_simp
  show ?thesis using eq e1 e2 e3 e4 e5 unfolding affirmativeResponses_def by blast
qed

theorem C5_affirmative_witness:
  "spec_containsWholeWord (ToLower (\<lambda>s. s) ''Sure, I agree with this'') ''i agree'' \<and>
   consentDetected (\<lambda>s. s) ''Sure, I agree with this'' \<and>
   \<not> (\<exists>w \<in> set [''yes'', ''agree'', ''i agree'', ''consent'', ''i consent'', ''ok'', ''okay'',
                     ''ja'', ''oui'', ''si''].
         spec_containsWholeWord (ToLower (\<lambda>s. s) ''my eyes are okayish'') w)"
proof -
  have a: "consentDetected (\<lambda>s. s) ''Sure, I agree with this''" by code_simp
  have b: "\<not> consentDetected (\<lambda>s. s) ''my eyes are okayish''" by code_simp
  have c: "containsWholeWord (ToLower (\<lambda>s. s) ''Sure, I agree with this'') ''i agree''"
    by code_simp
  have d: "consentDetected (\<lambda>s. s) ''my eyes are okayish'' =
      (\<exists>w \<in> set [''yes'', ''agree'', ''i agree'', ''consent'', ''i consent'', ''ok'', ''okay'',
                     ''ja'', ''oui'', ''si''].
         spec_containsWholeWord (ToLower (\<lambda>s. s) ''my eyes are okayish'') w)"
    using C5_affirmative_is_whole_word_match [of "\<lambda>s. s" "''my eyes are okayish''"]
    by (rule conjunct1)
  have c': "spec_containsWholeWord (ToLower (\<lambda>s. s) ''Sure, I agree with this'') ''i agree''"
    using c by (simp only: containsWholeWord_refines)
  from b d have e: "\<not> (\<exists>w \<in> set [''yes'', ''agree'', ''i agree'', ''consent'', ''i consent'', ''ok'', ''okay'',
                     ''ja'', ''oui'', ''si''].
         spec_containsWholeWord (ToLower (\<lambda>s. s) ''my eyes are okayish'') w)"
    by blast
  show ?thesis using a c' e by (intro conjI)
qed

section \<open>Rate limiter: the shadow-ban invariant\<close>

lemma IsNewAccount_frame:
  "ExceededCounts (snd (IsNewAccount cfg c rl u)) = ExceededCounts rl \<and>
   ShadowBanned (snd (IsNewAccount cfg c rl u)) = ShadowBanned rl \<and>
   Whitelist (snd (IsNewAccount cfg c rl u)) = Whitelist rl \<and>
   MinuteCounts (snd (IsNewAccount cfg c rl u)) = MinuteCounts rl \<and>
   HourCounts (snd (IsNewAccount cfg c rl u)) = HourCounts rl"
  by (simp add: IsNewAccount_def split: option.splits)

lemma rateInv_frame:
  "ExceededCounts rl' = ExceededCounts rl \<Longrightarrow> ShadowBanned rl' = ShadowBanned rl \<Longrightarrow>
   Whitelist rl' = Whitelist rl \<Longrightarrow> rateInv cfg rl' = rateInv cfg rl"
  by (simp add: rateInv_def IsShadowBanned_def)

lemma rateInv_New: "rateInv cfg NewRateLimiter"
  by (simp add: rateInv_def NewRateLimiter_def IsShadowBanned_def flag_def count_def)

lemma limitExceeded_inv:
  assumes "rateInv cfg rl" "\<not> IsShadowBanned rl u"
  shows "rateInv cfg (fst (snd (limitExceeded cfg c rl u)))"
  using assms
  unfolding rateInv_def limitExceeded_def ShadowBanUser_def IsShadowBanned_def Let_def
  by (auto simp: flag_def count_def split: option.splits if_splits)

lemma limitExceeded_whitelist:
  "Whitelist (fst (snd (limitExceeded cfg c rl u))) = Whitelist rl"
  unfolding limitExceeded_def ShadowBanUser_def Let_def by (simp split: if_splits)

lemma Increment_inv:
  assumes "rateInv cfg rl"
  shows "rateInv cfg (fst (snd (Increment cfg c rl u)))"
proof -
  let ?rl1 = "snd (IsNewAccount cfg c rl u)"
  have inv1: "rateInv cfg ?rl1"
    using assms IsNewAccount_frame[of cfg c rl u] rateInv_frame[of ?rl1 rl cfg] by simp
  show ?thesis
  proof (cases "\<not> RateLimitEnabled cfg \<or> IsShadowBanned rl u")
    case True
    then show ?thesis using assms by (auto simp: Increment_def)
  next
    case False
    then have nb: "\<not> IsShadowBanned ?rl1 u"
      using IsNewAccount_frame[of cfg c rl u] by (simp add: IsShadowBanned_def)
    have le: "rateInv cfg (fst (snd (limitExceeded cfg c ?rl1 u)))"
      using limitExceeded_inv[OF inv1 nb] .
    have ok: "rateInv cfg
        (?rl1\<lparr>MinuteCounts := (MinuteCounts ?rl1)(u \<mapsto> count (MinuteCounts ?rl1) u + 1),
              HourCounts := (HourCounts ?rl1)(u \<mapsto> count (HourCounts ?rl1) u + 1)\<rparr>)"
      using inv1 by (simp add: rateInv_def IsShadowBanned_def)
    show ?thesis
      using False le ok by (simp add: Increment_def Let_def split_beta)
  qed
qed

lemma Increment_whitelist:
  "Whitelist (fst (snd (Increment cfg c rl u))) = Whitelist rl"
  using IsNewAccount_frame[of cfg c rl u] limitExceeded_whitelist[of cfg c "snd (IsNewAccount cfg c rl u)" u]
  by (simp add: Increment_def Let_def split_beta)

lemma applyOp_inv: "rateInv cfg rl \<Longrightarrow> rateInv cfg (applyOp cfg rl op)"
proof (cases op)
  case (OpIncrement c u)
  assume "rateInv cfg rl"
  then show ?thesis using OpIncrement by (simp add: Increment_inv)
next
  case OpResetMinuteCounts
  assume "rateInv cfg rl"
  then show ?thesis using OpResetMinuteCounts
    by (simp add: ResetMinuteCounts_def rateInv_def IsShadowBanned_def)
next
  case OpResetHourCounts
  assume "rateInv cfg rl"
  then show ?thesis using OpResetHourCounts
    by (auto simp: ResetHourCounts_def rateInv_def IsShadowBanned_def count_def split: option.splits)
next
  case (OpUnbanAndWhitelistUser u)
  assume "rateInv cfg rl"
  then show ?thesis using OpUnbanAndWhitelistUser
    by (auto simp: UnbanAndWhitelistUser_def rateInv_def IsShadowBanned_def flag_def)
qed

lemma applyOp_whitelist: "flag (Whitelist rl) u \<Longrightarrow> flag (Whitelist (applyOp cfg rl op)) u"
  by (cases op)
     (auto simp: Increment_whitelist ResetMinuteCounts_def ResetHourCounts_def
        UnbanAndWhitelistUser_def flag_def)

lemma foldl_applyOp_inv: "rateInv cfg rl \<Longrightarrow> rateInv cfg (foldl (applyOp cfg) rl ops)"
  by (induction ops arbitrary: rl) (simp_all add: applyOp_inv)

lemma runOps_inv: "rateInv cfg (runOps cfg ops)"
  by (simp add: runOps_def foldl_applyOp_inv rateInv_New)

text \<open>
  C3. In every state reached from the empty rate limiter by Increment, ResetMinuteCounts,
  ResetHourCounts and UnbanAndWhitelistUser, for a threshold that is not negative: a user
  whose exceed count is above the threshold is shadow-banned or whitelisted; a
  whitelisted user is not shadow-banned, and no further operation bans one.
\<close>

theorem C3_exceed_count_invariant:
  assumes "0 \<le> ShadowBanThreshold cfg"
  shows "(ShadowBanThreshold cfg < count (ExceededCounts (runOps cfg ops)) u \<longrightarrow>
            IsShadowBanned (runOps cfg ops) u \<or> flag (Whitelist (runOps cfg ops)) u) \<and>
         (flag (Whitelist (runOps cfg ops)) u \<longrightarrow>
            \<not> IsShadowBanned (runOps cfg ops) u \<and>
            \<not> IsShadowBanned (applyOp cfg (runOps cfg ops) op) u)"
proof -
  let ?rl = "runOps cfg ops"
  have inv: "rateInv cfg ?rl" by (rule runOps_inv)
  have inv': "rateInv cfg (applyOp cfg ?rl op)" using inv by (rule applyOp_inv)
  have a: "ShadowBanThreshold cfg < count (ExceededCounts ?rl) u \<longrightarrow>
            IsShadowBanned ?rl u \<or> flag (Whitelist ?rl) u"
    using inv assms unfolding rateInv_def by (metis less_le_not_le not_less_iff_gr_or_eq)
  have b: "flag (Whitelist ?rl) u \<longrightarrow> \<not> IsShadowBanned ?rl u"
    using inv unfolding rateInv_def by blast
  have c: "flag (Whitelist ?rl) u \<longrightarrow> \<not> IsShadowBanned (applyOp cfg ?rl op) u"
    using inv' applyOp_whitelist[of ?rl u cfg op] unfolding rateInv_def by blast
  show ?thesis using a b c by blast
qed

theorem C3_exceed_count_witness:
  "0 \<le> ShadowBanThreshold (exampleConfig\<lparr>MaxRequestsPerHour := 0, ShadowBanThreshold := 1\<rparr>) \<and>
   ShadowBanThreshold (exampleConfig\<lparr>MaxRequestsPerHour := 0, ShadowBanThreshold := 1\<rparr>)
     < count (ExceededCounts (runOps (exampleConfig\<lparr>MaxRequestsPerHour := 0, ShadowBanThreshold := 1\<rparr>)
         [OpUnbanAndWhitelistUser ''u'', OpIncrement exampleWorld ''u'',
          OpIncrement exampleWorld ''u''])) ''u'' \<and>
   flag (Whitelist (runOps (exampleConfig\<lparr>MaxRequestsPerHour := 0, ShadowBanThreshold := 1\<rparr>)
         [OpUnbanAndWhitelistUser ''u'', OpIncrement exampleWorld ''u'',
          OpIncrement exampleWorld ''u''])) ''u'' \<and>
   \<not> IsShadowBanned (runOps (exampleConfig\<lparr>MaxRequestsPerHour := 0, ShadowBanThreshold := 1\<rparr>)
         [OpUnbanAndWhitelistUser ''u'', OpIncrement exampleWorld ''u'',
          OpIncrement exampleWorld ''u'']) ''u'' \<and>
   \<not> IsShadowBanned (applyOp (exampleConfig\<lparr>MaxRequestsPerHour := 0, ShadowBanThreshold := 1\<rparr>)
        (runOps (exampleConfig\<lparr>MaxRequestsPerHour := 0, ShadowBanThreshold := 1\<rparr>)
         [OpUnbanAndWhitelistUser ''u'', OpIncrement exampleWorld ''u'',
          OpIncrement exampleWorld ''u''])
        (OpIncrement exampleWorld ''u'')) ''u''"
proof -
  let ?cfg = "exampleConfig\<lparr>MaxRequestsPerHour := 0, ShadowBanThreshold := 1\<rparr>"
  let ?ops = "[OpUnbanAndWhitelistUser ''u'', OpIncrement exampleWorld ''u'',
               OpIncrement exampleWorld ''u'']"
  have h: "0 \<le> ShadowBanThreshold ?cfg" by (simp add: exampleConfig_def)
  have n: "ShadowBanThreshold ?cfg < count (ExceededCounts (runOps ?cfg ?ops)) ''u''"
    by code_simp
  have w: "flag (Whitelist (runOps ?cfg ?ops)) ''u''"
    by code_simp
  show ?thesis
    using h n w C3_exceed_count_invariant [OF h, of ?ops "''u''" "OpIncrement exampleWorld ''u''"]
    by blast
qed

section \<open>Rate limiter: escalation to the shadow ban\<close>

lemma Increments_snoc:
  "Increments cfg c rl u (Suc n) =
     (let (oks, rl1, es1) = Increments cfg c rl u n;
          (ok, rl2, es2) = Increment cfg c rl1 u
      in (oks @ [ok], rl2, es1 @ es2))"
proof (induction n arbitrary: rl)
  case 0
  show ?case by (simp add: split_beta Let_def)
next
  case (Suc n)
  have "Increments cfg c rl u (Suc (Suc n)) =
        (let (ok, rl1, es1) = Increment cfg c rl u;
             (oks, rl2, es2) = Increments cfg c rl1 u (Suc n)
         in (ok # oks, rl2, es1 @ es2))"
    by (rule Increments.simps(2))
  also have "\<dots> =
        (let (oks, rl1, es1) = Increments cfg c rl u (Suc n);
             (ok, rl2, es2) = Increment cfg c rl1 u
         in (oks @ [ok], rl2, es1 @ es2))"
    by (subst Suc.IH) (simp add: split_beta Let_def)
  finally show ?case .
qed

lemma IsNewAccount_stable:
  assumes "AccountAges rl' u = AccountAges (snd (IsNewAccount cfg c rl u)) u"
  shows "fst (IsNewAccount cfg c rl' u) = fst (IsNewAccount cfg c rl u)"
  using assms by (auto simp: IsNewAccount_def split: option.splits)

lemma IsNewAccount_ages:
  "AccountAges (snd (IsNewAccount cfg c (snd (IsNewAccount cfg c rl u)) u)) u =
   AccountAges (snd (IsNewAccount cfg c rl u)) u"
  by (auto simp: IsNewAccount_def split: option.splits)

lemma Increment_allowed:
  assumes "RateLimitEnabled cfg" "\<not> fst (IsNewAccount cfg c rl0 u)"
    and "userAt cfg c rl0 u rl k e" "k < MaxRequestsPerMinute cfg" "k < MaxRequestsPerHour cfg"
  shows "fst (Increment cfg c rl u) \<and> snd (snd (Increment cfg c rl u)) = [] \<and>
         userAt cfg c rl0 u (fst (snd (Increment cfg c rl u))) (k + 1) e"
proof -
  let ?rl1 = "snd (IsNewAccount cfg c rl u)"
  have new: "\<not> fst (IsNewAccount cfg c rl u)"
    using assms(2,3) IsNewAccount_stable[of rl u cfg c rl0]
    by (auto simp: userAt_def IsNewAccount_def split: option.splits)
  have fr: "MinuteCounts ?rl1 = MinuteCounts rl" "HourCounts ?rl1 = HourCounts rl"
    "ExceededCounts ?rl1 = ExceededCounts rl" "ShadowBanned ?rl1 = ShadowBanned rl"
    "Whitelist ?rl1 = Whitelist rl"
    using IsNewAccount_frame[of cfg c rl u] by simp_all
  have eq: "Increment cfg c rl u =
      (True, ?rl1\<lparr>MinuteCounts := (MinuteCounts ?rl1)(u \<mapsto> count (MinuteCounts ?rl1) u + 1),
                   HourCounts := (HourCounts ?rl1)(u \<mapsto> count (HourCounts ?rl1) u + 1)\<rparr>, [])"
    using assms new fr by (simp add: Increment_def Let_def split_beta userAt_def)
  have ages: "AccountAges (snd (IsNewAccount cfg c
        (?rl1\<lparr>MinuteCounts := (MinuteCounts ?rl1)(u \<mapsto> count (MinuteCounts ?rl1) u + 1),
               HourCounts := (HourCounts ?rl1)(u \<mapsto> count (HourCounts ?rl1) u + 1)\<rparr>) u)) u =
      AccountAges ?rl1 u"
    by (auto simp: IsNewAccount_def split: option.splits)
  show ?thesis
    using assms(3) fr ages unfolding eq
    by (simp add: userAt_def count_def IsShadowBanned_def)
qed


lemma limitExceeded_eq:
  "limitExceeded cfg c rl u =
     (False,
      (if ShadowBanThreshold cfg \<le> count (ExceededCounts rl) u + 1 \<and> \<not> flag (Whitelist rl) u
       then rl\<lparr>ExceededCounts := (ExceededCounts rl)(u \<mapsto> count (ExceededCounts rl) u + 1),
               ShadowBanned := (ShadowBanned rl)(u \<mapsto> True)\<rparr>
       else rl\<lparr>ExceededCounts := (ExceededCounts rl)(u \<mapsto> count (ExceededCounts rl) u + 1)\<rparr>),
      (if ShadowBanThreshold cfg \<le> count (ExceededCounts rl) u + 1 \<and> \<not> flag (Whitelist rl) u
       then notifyAdmin cfg c u else []))"
  by (simp add: limitExceeded_def ShadowBanUser_def Let_def count_def)

lemma Increment_denied:
  assumes "RateLimitEnabled cfg" "\<not> fst (IsNewAccount cfg c rl0 u)"
    and "userAt cfg c rl0 u rl k e"
    and "MaxRequestsPerMinute cfg \<le> k \<or> MaxRequestsPerHour cfg \<le> k"
  shows "\<not> fst (Increment cfg c rl u) \<and>
         count (MinuteCounts (fst (snd (Increment cfg c rl u)))) u = k \<and>
         count (HourCounts (fst (snd (Increment cfg c rl u)))) u = k \<and>
         count (ExceededCounts (fst (snd (Increment cfg c rl u)))) u = e + 1 \<and>
         \<not> flag (Whitelist (fst (snd (Increment cfg c rl u)))) u \<and>
         AccountAges (snd (IsNewAccount cfg c (fst (snd (Increment cfg c rl u))) u)) u =
           AccountAges (snd (IsNewAccount cfg c rl0 u)) u \<and>
         IsShadowBanned (fst (snd (Increment cfg c rl u))) u = (ShadowBanThreshold cfg \<le> e + 1) \<and>
         snd (snd (Increment cfg c rl u)) =
           (if ShadowBanThreshold cfg \<le> e + 1 then notifyAdmin cfg c u else [])"
proof -
  let ?rl1 = "snd (IsNewAccount cfg c rl u)"
  have new: "\<not> fst (IsNewAccount cfg c rl u)"
    using assms(2,3) IsNewAccount_stable[of rl u cfg c rl0]
    by (auto simp: userAt_def IsNewAccount_def split: option.splits)
  have fr: "MinuteCounts ?rl1 = MinuteCounts rl" "HourCounts ?rl1 = HourCounts rl"
    "ExceededCounts ?rl1 = ExceededCounts rl" "ShadowBanned ?rl1 = ShadowBanned rl"
    "Whitelist ?rl1 = Whitelist rl"
    using IsNewAccount_frame[of cfg c rl u] by simp_all
  have eq: "Increment cfg c rl u = limitExceeded cfg c ?rl1 u"
    using assms new fr by (auto simp: Increment_def Let_def split_beta userAt_def)
  have ages: "\<And>f g. AccountAges (snd (IsNewAccount cfg c
        (?rl1\<lparr>ExceededCounts := f, ShadowBanned := g\<rparr>) u)) u = AccountAges ?rl1 u"
     "\<And>f. AccountAges (snd (IsNewAccount cfg c (?rl1\<lparr>ExceededCounts := f\<rparr>) u)) u =
        AccountAges ?rl1 u"
    by (auto simp: IsNewAccount_def split: option.splits)
  show ?thesis
    using assms(3) fr ages unfolding eq limitExceeded_eq
    by (simp add: userAt_def count_def IsShadowBanned_def flag_def)
qed

lemma Increment_banned:
  assumes "RateLimitEnabled cfg" "IsShadowBanned rl u"
  shows "Increment cfg c rl u = (False, rl, [])"
  using assms by (simp add: Increment_def)

lemma Increments_Suc_parts:
  "fst (Increments cfg c rl u (Suc n)) =
     fst (Increments cfg c rl u n) @ [fst (Increment cfg c (fst (snd (Increments cfg c rl u n))) u)]"
  "fst (snd (Increments cfg c rl u (Suc n))) =
     fst (snd (Increment cfg c (fst (snd (Increments cfg c rl u n))) u))"
  "snd (snd (Increments cfg c rl u (Suc n))) =
     snd (snd (Increments cfg c rl u n)) @
     snd (snd (Increment cfg c (fst (snd (Increments cfg c rl u n))) u))"
  unfolding Increments_snoc by (simp_all add: split_beta Let_def del: Increments.simps)

text \<open>
  C2 (amended). With three requests per hour and a shadow-ban threshold of two, for a user
  with zero counters who is neither banned nor whitelisted and not a new account: calls
  1-3 are allowed; calls 4 and 5 are denied and bring the exceed count to 1 and then 2;
  after the 4th call the user is not yet banned and nothing has been posted; the ban and
  the one admin notification come with the 5th call, which is rejected by the limit
  check; a 6th call is rejected because the user is shadow-banned.
\<close>

theorem C2_escalation_amended:
  assumes en: "RateLimitEnabled cfg"
    and hour: "MaxRequestsPerHour cfg = 3"
    and thr: "ShadowBanThreshold cfg = 2"
    and minute: "3 \<le> MaxRequestsPerMinute cfg"
    and old: "\<not> fst (IsNewAccount cfg c rl U)"
    and acct: "GetAccount c U = Some account"
    and zero: "count (MinuteCounts rl) U = 0" "count (HourCounts rl) U = 0"
      "count (ExceededCounts rl) U = 0"
    and free: "\<not> IsShadowBanned rl U" "\<not> flag (Whitelist rl) U"
  shows "fst (Increments cfg c rl U 5) = [True, True, True, False, False] \<and>
         count (ExceededCounts (fst (snd (Increments cfg c rl U 4)))) U = 1 \<and>
         \<not> IsShadowBanned (fst (snd (Increments cfg c rl U 4))) U \<and>
         snd (snd (Increments cfg c rl U 4)) = [] \<and>
         count (ExceededCounts (fst (snd (Increments cfg c rl U 5)))) U = 2 \<and>
         IsShadowBanned (fst (snd (Increments cfg c rl U 5))) U \<and>
         snd (snd (Increments cfg c rl U 5)) =
           [PostStatusCall
              \<lparr>TootStatus = AdminContactHandle cfg @ '' User '' @ Acct account @
                   '' has been shadow banned for exceeding rate limits.'' @ [CHR 0x0A] @
                   ''To unban, reply with 'unban '' @ U @ '''.'',
               TootInReplyToID = '''', TootVisibility = ''direct'', TootLanguage = '''',
               TootSpoilerText = ''''\<rparr>] \<and>
         Increment cfg c (fst (snd (Increments cfg c rl U 5))) U =
           (False, fst (snd (Increments cfg c rl U 5)), [])"
proof -
  let ?I = "\<lambda>n. Increments cfg c rl U n"
  let ?r = "\<lambda>n. fst (snd (?I n))"
  have n: "(5::nat) = Suc 4" "(4::nat) = Suc 3" "(3::nat) = Suc 2" "(2::nat) = Suc 1"
    "(1::nat) = Suc 0" by simp_all
  have u0: "userAt cfg c rl U (?r 0) 0 0" "fst (?I 0) = []" "snd (snd (?I 0)) = []"
    using zero free by (simp_all add: userAt_def)
  have s1: "fst (Increment cfg c (?r 0) U) \<and> snd (snd (Increment cfg c (?r 0) U)) = [] \<and>
            userAt cfg c rl U (fst (snd (Increment cfg c (?r 0) U))) (0 + 1) 0"
    using hour minute by (intro Increment_allowed[OF en old u0(1)]) simp_all
  have u1: "userAt cfg c rl U (?r 1) 1 0" "fst (?I 1) = [True]" "snd (snd (?I 1)) = []"
    using s1 u0 unfolding n(5) Increments_Suc_parts by simp_all
  have s2: "fst (Increment cfg c (?r 1) U) \<and> snd (snd (Increment cfg c (?r 1) U)) = [] \<and>
            userAt cfg c rl U (fst (snd (Increment cfg c (?r 1) U))) (1 + 1) 0"
    using hour minute by (intro Increment_allowed[OF en old u1(1)]) simp_all
  have u2: "userAt cfg c rl U (?r 2) 2 0" "fst (?I 2) = [True, True]" "snd (snd (?I 2)) = []"
    using s2 u1 unfolding n(4) Increments_Suc_parts by simp_all
  have s3: "fst (Increment cfg c (?r 2) U) \<and> snd (snd (Increment cfg c (?r 2) U)) = [] \<and>
            userAt cfg c rl U (fst (snd (Increment cfg c (?r 2) U))) (2 + 1) 0"
    using hour minute by (intro Increment_allowed[OF en old u2(1)]) simp_all
  have u3: "userAt cfg c rl U (?r 3) 3 0" "fst (?I 3) = [True, True, True]"
    "snd (snd (?I 3)) = []"
    using s3 u2 unfolding n(3) Increments_Suc_parts by simp_all
  have lim: "MaxRequestsPerMinute cfg \<le> 3 \<or> MaxRequestsPerHour cfg \<le> 3"
    using hour by simp
  note s4 = Increment_denied[OF en old u3(1) lim]
  have u4: "userAt cfg c rl U (?r 4) 3 1" "fst (?I 4) = [True, True, True, False]"
    "snd (snd (?I 4)) = []"
    using s4 u3 thr unfolding n(2) Increments_Suc_parts by (simp_all add: userAt_def)
  note s5 = Increment_denied[OF en old u4(1) lim]
  have u5: "fst (?I 5) = [True, True, True, False, False]"
    "count (ExceededCounts (?r 5)) U = 2" "IsShadowBanned (?r 5) U"
    "snd (snd (?I 5)) = notifyAdmin cfg c U"
    using s5 u4 thr unfolding n(1) Increments_Suc_parts by simp_all
  have s6: "Increment cfg c (?r 5) U = (False, ?r 5, [])"
    using Increment_banned[OF en u5(3)] .
  have note_eq: "notifyAdmin cfg c U =
           [PostStatusCall
              \<lparr>TootStatus = AdminContactHandle cfg @ '' User '' @ Acct account @
                   '' has been shadow banned for exceeding rate limits.'' @ [CHR 0x0A] @
                   ''To unban, reply with 'unban '' @ U @ '''.'',
               TootInReplyToID = '''', TootVisibility = ''direct'', TootLanguage = '''',
               TootSpoilerText = ''''\<rparr>]"
    using acct by (simp add: notifyAdmin_def)
  show ?thesis
    using u4 u5 s6 note_eq by (simp add: userAt_def)
qed

text \<open>
  After the fourth call of the scenario the user is not banned and no notification has
  been posted.
\<close>

theorem C2_fourth_call_counterexample:
  "MaxRequestsPerHour exampleConfig = 3 \<and> ShadowBanThreshold exampleConfig = 2 \<and>
   fst (Increments exampleConfig exampleWorld NewRateLimiter ''u'' 4) = [True, True, True, False] \<and>
   count (ExceededCounts (fst (snd (Increments exampleConfig exampleWorld NewRateLimiter ''u'' 4)))) ''u'' = 1 \<and>
   \<not> IsShadowBanned (fst (snd (Increments exampleConfig exampleWorld NewRateLimiter ''u'' 4))) ''u'' \<and>
   snd (snd (Increments exampleConfig exampleWorld NewRateLimiter ''u'' 4)) = []"
  by code_simp

theorem C2_escalation_witness:
  "fst (Increments exampleConfig exampleWorld NewRateLimiter ''u'' 5) =
     [True, True, True, False, False] \<and>
   \<not> IsShadowBanned (fst (snd (Increments exampleConfig exampleWorld NewRateLimiter ''u'' 4))) ''u'' \<and>
   IsShadowBanned (fst (snd (Increments exampleConfig exampleWorld NewRateLimiter ''u'' 5))) ''u'' \<and>
   length (snd (snd (Increments exampleConfig exampleWorld NewRateLimiter ''u'' 5))) = 1"
proof -
  have h1: "RateLimitEnabled exampleConfig" by code_simp
  have h2: "MaxRequestsPerHour exampleConfig = 3" by code_simp
  have h3: "ShadowBanThreshold exampleConfig = 2" by code_simp
  have h4: "3 \<le> MaxRequestsPerMinute exampleConfig" by code_simp
  have h5: "\<not> fst (IsNewAccount exampleConfig exampleWorld NewRateLimiter ''u'')" by code_simp
  have h6: "GetAccount exampleWorld ''u'' = Some (exampleAccount ''u'')"
    by (simp add: exampleWorld_def)
  have h7: "count (MinuteCounts NewRateLimiter) ''u'' = 0" by code_simp
  have h8: "count (HourCounts NewRateLimiter) ''u'' = 0" by code_simp
  have h9: "count (ExceededCounts NewRateLimiter) ''u'' = 0" by code_simp
  have h10: "\<not> IsShadowBanned NewRateLimiter ''u''" by code_simp
  have h11: "\<not> flag (Whitelist NewRateLimiter) ''u''" by code_simp
  show ?thesis
    using C2_escalation_amended [OF h1 h2 h3 h4 h5 h6 h7 h8 h9 h10 h11] by simp
qed

section \<open>Delete cascade\<close>

text \<open>
  C4 (amended). A Delete event for a source with an entry makes exactly one deleteStatus
  call, for the recorded reply; the entry is removed when that call succeeds and the
  table is left as it was when the call fails. A Delete event for an id with no entry
  makes no call and changes nothing.
\<close>

theorem C4_delete_cascade_amended:
  "(rmap S = Some info \<longrightarrow>
      snd (handleDeleteEvent c rmap S) = [DeleteStatusCall (ReplyID info)] \<and>
      fst (handleDeleteEvent c rmap S) =
        (if DeleteStatus c (ReplyID info) then rmap(S := None) else rmap)) \<and>
   (rmap S = None \<longrightarrow> handleDeleteEvent c rmap S = (rmap, []))"
  by (simp add: handleDeleteEvent_def)

theorem C4_delete_cascade_witness:
  "snd (handleDeleteEvent exampleWorld [''S'' \<mapsto> \<lparr>ReplyID = ''R'', Timestamp = 5\<rparr>] ''S'') =
     [DeleteStatusCall ''R''] \<and>
   fst (handleDeleteEvent exampleWorld [''S'' \<mapsto> \<lparr>ReplyID = ''R'', Timestamp = 5\<rparr>] ''S'') ''S'' = None \<and>
   handleDeleteEvent exampleWorld Map.empty ''S'' = (Map.empty, [])"
  using C4_delete_cascade_amended [of "[''S'' \<mapsto> \<lparr>ReplyID = ''R'', Timestamp = 5\<rparr>]" "''S''"
          "\<lparr>ReplyID = ''R'', Timestamp = 5\<rparr>" exampleWorld]
        C4_delete_cascade_amended [of Map.empty "''S''" "\<lparr>ReplyID = ''R'', Timestamp = 5\<rparr>" exampleWorld]
  by (simp add: exampleWorld_def)

text \<open>When the platform refuses the deletion the entry for the source stays.\<close>

theorem C4_delete_failure_counterexample:
  "snd (handleDeleteEvent (exampleWorld\<lparr>DeleteStatus := (\<lambda>_. False)\<rparr>)
          [''S'' \<mapsto> \<lparr>ReplyID = ''R'', Timestamp = 5\<rparr>] ''S'') = [DeleteStatusCall ''R''] \<and>
   fst (handleDeleteEvent (exampleWorld\<lparr>DeleteStatus := (\<lambda>_. False)\<rparr>)
          [''S'' \<mapsto> \<lparr>ReplyID = ''R'', Timestamp = 5\<rparr>] ''S'') ''S'' =
     Some \<lparr>ReplyID = ''R'', Timestamp = 5\<rparr>"
  by (simp add: handleDeleteEvent_def exampleWorld_def)

text \<open>
  C9. If deleteStatus fails for a source with an entry, the table is unchanged; the entry
  is gone afterwards only if the deletion succeeded.
\<close>

theorem C9_entry_kept_on_failure:
  assumes "rmap S = Some info"
  shows "(\<not> DeleteStatus c (ReplyID info) \<longrightarrow> fst (handleDeleteEvent c rmap S) = rmap) \<and>
         (fst (handleDeleteEvent c rmap S) S = None \<longleftrightarrow> DeleteStatus c (ReplyID info))"
  using assms by (simp add: handleDeleteEvent_def)

theorem C9_entry_kept_witness:
  "fst (handleDeleteEvent (exampleWorld\<lparr>DeleteStatus := (\<lambda>r. r \<noteq> ''R'')\<rparr>)
          [''S'' \<mapsto> \<lparr>ReplyID = ''R'', Timestamp = 5\<rparr>, ''T'' \<mapsto> \<lparr>ReplyID = ''Q'', Timestamp = 6\<rparr>] ''S'') =
     [''S'' \<mapsto> \<lparr>ReplyID = ''R'', Timestamp = 5\<rparr>, ''T'' \<mapsto> \<lparr>ReplyID = ''Q'', Timestamp = 6\<rparr>] \<and>
   fst (handleDeleteEvent (exampleWorld\<lparr>DeleteStatus := (\<lambda>r. r \<noteq> ''R'')\<rparr>)
          [''S'' \<mapsto> \<lparr>ReplyID = ''R'', Timestamp = 5\<rparr>, ''T'' \<mapsto> \<lparr>ReplyID = ''Q'', Timestamp = 6\<rparr>] ''T'') ''T'' =
     None"
proof -
  let ?c = "exampleWorld\<lparr>DeleteStatus := (\<lambda>r. r \<noteq> ''R'')\<rparr>"
  let ?m = "[''S'' \<mapsto> \<lparr>ReplyID = ''R'', Timestamp = 5\<rparr>, ''T'' \<mapsto> \<lparr>ReplyID = ''Q'', Timestamp = 6\<rparr>]"
  have s: "?m ''S'' = Some \<lparr>ReplyID = ''R'', Timestamp = 5\<rparr>" by simp
  have t: "?m ''T'' = Some \<lparr>ReplyID = ''Q'', Timestamp = 6\<rparr>" by simp
  have f: "\<not> DeleteStatus ?c (ReplyID \<lparr>ReplyID = ''R'', Timestamp = 5\<rparr>)" by simp
  have g: "DeleteStatus ?c (ReplyID \<lparr>ReplyID = ''Q'', Timestamp = 6\<rparr>)" by simp
  show ?thesis
    using C9_entry_kept_on_failure [where rmap = ?m and S = "''S''" and c = ?c, OF s]
      C9_entry_kept_on_failure [where rmap = ?m and S = "''T''" and c = ?c, OF t] f g
    by blast
qed

section \<open>Content warning\<close>

lemma HasPrefix_iff: "HasPrefix s p = (\<exists>rest. s = p @ rest)"
proof
  assume "HasPrefix s p"
  then have "s = p @ drop (length p) s"
    by (metis HasPrefix_def append_take_drop_id)
  then show "\<exists>rest. s = p @ rest" ..
next
  assume "\<exists>rest. s = p @ rest"
  then show "HasPrefix s p" by (auto simp: HasPrefix_def)
qed

text \<open>
  C7 (amended). The reply's content warning is the source's spoiler text, with \<open>re: \<close>
  put in front when the spoiler text is not empty and does not begin with \<open>re:\<close> (the
  three characters, with or without a space after them). A spoiler text that begins
  with \<open>re: \<close> is carried through unchanged, and prefixing is idempotent.
\<close>

theorem C7_content_warning_amended:
  "contentWarning [] = [] \<and>
   contentWarning (''re:'' @ rest) = ''re:'' @ rest \<and>
   contentWarning (''re: '' @ rest) = ''re: '' @ rest \<and>
   (spoiler \<noteq> [] \<and> \<not> (\<exists>r. spoiler = ''re:'' @ r) \<longrightarrow>
      contentWarning spoiler = ''re: '' @ spoiler) \<and>
   contentWarning (contentWarning spoiler) = contentWarning spoiler"
proof -
  have a: "contentWarning [] = []" by (simp add: contentWarning_def)
  have b: "contentWarning (''re:'' @ rest) = ''re:'' @ rest"
    by (simp add: contentWarning_def HasPrefix_def)
  have c: "contentWarning (''re: '' @ rest) = ''re: '' @ rest"
    by (simp add: contentWarning_def HasPrefix_def)
  have d: "spoiler \<noteq> [] \<and> \<not> (\<exists>r. spoiler = ''re:'' @ r) \<longrightarrow>
      contentWarning spoiler = ''re: '' @ spoiler"
    unfolding contentWarning_def HasPrefix_iff by simp
  have e: "contentWarning (contentWarning spoiler) = contentWarning spoiler"
    by (simp add: contentWarning_def HasPrefix_def)
  show ?thesis using a b c d e by blast
qed

theorem C7_content_warning_witness:
  "contentWarning ''spoilers'' = ''re: spoilers'' \<and>
   contentWarning ''re: spoilers'' = ''re: spoilers'' \<and>
   contentWarning (contentWarning ''spoilers'') = contentWarning ''spoilers''"
  using C7_content_warning_amended [of "'' spoilers''" "''spoilers''"]
  by simp

text \<open>
  A spoiler text that begins with \<open>re:\<close> but not with \<open>re: \<close> is not prefixed.
\<close>

theorem C7_prefix_without_space_counterexample:
  "''re:food'' \<noteq> [] \<and> \<not> HasPrefix ''re:food'' ''re: '' \<and>
   contentWarning ''re:food'' = ''re:food'' \<and>
   contentWarning ''re:food'' \<noteq> ''re: '' @ ''re:food''"
  by (simp add: contentWarning_def HasPrefix_def)

section \<open>Reply visibility\<close>

lemma append_eq_literal:
  "(xs @ ys = zs) =
     (length ys \<le> length zs \<and> xs = take (length zs - length ys) zs \<and>
      ys = drop (length zs - length ys) zs)"
proof
  assume "xs @ ys = zs"
  then show "length ys \<le> length zs \<and> xs = take (length zs - length ys) zs \<and>
      ys = drop (length zs - length ys) zs"
    by auto
next
  assume "length ys \<le> length zs \<and> xs = take (length zs - length ys) zs \<and>
      ys = drop (length zs - length ys) zs"
  then show "xs @ ys = zs"
    by (metis append_take_drop_id)
qed

lemma ToLower_key:
  assumes "isASCII c" "s \<in> {''public'', ''unlisted'', ''private'', ''direct''}"
  shows "ToLower ul (c @ '','' @ s) = map lowerByte c @ '','' @ s"
  using assms by (auto simp: ToLower_def isASCII_def lowerByte_def less_eq_char_def)

text \<open>The mapping as a table over the lowercased setting, for settings in ASCII.\<close>

lemma replyVisibility_table:
  assumes "isASCII c" "s \<in> {''public'', ''unlisted'', ''private'', ''direct''}"
  shows "replyVisibility ul c s =
     (if s = ''private'' then ''direct''
      else if map lowerByte c = ''public'' then s
      else if map lowerByte c = ''unlisted'' then (if s = ''public'' then ''unlisted'' else s)
      else if map lowerByte c = ''private'' then (if s = ''direct'' then ''direct'' else ''private'')
      else if map lowerByte c = ''direct'' then ''direct''
      else s)"
proof -
  let ?lc = "map lowerByte c"
  consider "s = ''public''" | "s = ''unlisted''" | "s = ''private''" | "s = ''direct''"
    using assms(2) by auto
  then show ?thesis
  proof cases
    case 1
    then show ?thesis
      unfolding replyVisibility_def Let_def ToLower_key[OF assms]
      by (simp add: append_eq_literal)
  next
    case 2
    then show ?thesis
      unfolding replyVisibility_def Let_def ToLower_key[OF assms]
      by (simp add: append_eq_literal)
  next
    case 3
    then show ?thesis
      unfolding replyVisibility_def Let_def ToLower_key[OF assms]
      by (simp add: append_eq_literal)
  next
    case 4
    then show ?thesis
      unfolding replyVisibility_def Let_def ToLower_key[OF assms]
      by (simp add: append_eq_literal)
  qed
qed

lemma ToLower_ascii: "isASCII c \<Longrightarrow> ToLower ul c = map lowerByte c"
  by (simp add: ToLower_def)

text \<open>
  C6 (amended). For a reply_visibility setting in ASCII and a post visibility among
  public, unlisted, private and direct, applying the mapping to its own output gives
  the same value, except when the setting is private (in any letter case) and the post
  is public or unlisted: there the mapping gives private, and private is mapped on to
  direct.
\<close>

theorem C6_visibility_idempotent_amended:
  assumes "isASCII c" "s \<in> {''public'', ''unlisted'', ''private'', ''direct''}"
  shows "((replyVisibility ul c (replyVisibility ul c s) = replyVisibility ul c s) =
            (\<not> (ToLower ul c = ''private'' \<and> s \<in> {''public'', ''unlisted''}))) \<and>
         (ToLower ul c = ''private'' \<and> s \<in> {''public'', ''unlisted''} \<longrightarrow>
            replyVisibility ul c s = ''private'' \<and>
            replyVisibility ul c (replyVisibility ul c s) = ''direct'')"
proof -
  have T: "\<And>v. v \<in> {''public'', ''unlisted'', ''private'', ''direct''} \<Longrightarrow>
     replyVisibility ul c v =
     (if v = ''private'' then ''direct''
      else if map lowerByte c = ''public'' then v
      else if map lowerByte c = ''unlisted'' then (if v = ''public'' then ''unlisted'' else v)
      else if map lowerByte c = ''private'' then (if v = ''direct'' then ''direct'' else ''private'')
      else if map lowerByte c = ''direct'' then ''direct''
      else v)"
    using replyVisibility_table[OF assms(1)] by blast
  consider "s = ''public''" | "s = ''unlisted''" | "s = ''private''" | "s = ''direct''"
    using assms(2) by auto
  then show ?thesis
  proof cases
    case 1
    then show ?thesis by (simp add: T ToLower_ascii[OF assms(1)])
  next
    case 2
    then show ?thesis by (simp add: T ToLower_ascii[OF assms(1)])
  next
    case 3
    then show ?thesis by (simp add: T ToLower_ascii[OF assms(1)])
  next
    case 4
    then show ?thesis by (simp add: T ToLower_ascii[OF assms(1)])
  qed
qed

theorem C6_visibility_idempotent_witness:
  "replyVisibility (\<lambda>s. s) ''Unlisted'' (replyVisibility (\<lambda>s. s) ''Unlisted'' ''public'') =
     replyVisibility (\<lambda>s. s) ''Unlisted'' ''public'' \<and>
   replyVisibility (\<lambda>s. s) ''private'' ''unlisted'' = ''private'' \<and>
   replyVisibility (\<lambda>s. s) ''private'' (replyVisibility (\<lambda>s. s) ''private'' ''unlisted'') = ''direct''"
proof -
  have a: "isASCII ''Unlisted''" by code_simp
  have b: "isASCII ''private''" by code_simp
  have c: "ToLower (\<lambda>s. s) ''Unlisted'' \<noteq> ''private''" by code_simp
  have d: "ToLower (\<lambda>s. s) ''private'' = ''private''" by code_simp
  have p: "replyVisibility (\<lambda>s. s) ''Unlisted'' (replyVisibility (\<lambda>s. s) ''Unlisted'' ''public'') =
     replyVisibility (\<lambda>s. s) ''Unlisted'' ''public''"
    using C6_visibility_idempotent_amended [OF a, of "''public''" "\<lambda>s. s"] c by blast
  have q: "replyVisibility (\<lambda>s. s) ''private'' ''unlisted'' = ''private'' \<and>
     replyVisibility (\<lambda>s. s) ''private'' (replyVisibility (\<lambda>s. s) ''private'' ''unlisted'') = ''direct''"
    using C6_visibility_idempotent_amended [OF b, of "''unlisted''" "\<lambda>s. s"] d by blast
  show ?thesis using p q by blast
qed

text \<open>
  With the setting private, a public post is answered with private, and the mapping
  sends private on to direct: the second application changes the value.
\<close>

theorem C6_private_setting_counterexample:
  "replyVisibility (\<lambda>s. s) ''private'' ''public'' = ''private'' \<and>
   replyVisibility (\<lambda>s. s) ''private'' (replyVisibility (\<lambda>s. s) ''private'' ''public'') = ''direct'' \<and>
   replyVisibility (\<lambda>s. s) ''private'' (replyVisibility (\<lambda>s. s) ''private'' ''public'') \<noteq>
     replyVisibility (\<lambda>s. s) ''private'' ''public''"
  by code_simp

end
